theory Spec2Isabelle
  imports Main "HOL-Library.Word"
begin

section \<open>Record geometry and data\<close>

text \<open>
  The constants of \<^verbatim>\<open>mmap_reader.go\<close>. A record index is a Go \<^verbatim>\<open>int\<close>; it is an
  \<open>int\<close> here. Every product \<open>index * RecordSize\<close> of the source is computed after the
  range check, so it is below \<open>10^8\<close> and no machine integer wraps.
\<close>

type_synonym byte = "8 word"

definition RecordSize :: nat where
  "RecordSize = 100"

definition RecordCount :: nat where
  "RecordCount = 1000000"

text \<open>
  The errors of the accessors, one constructor per \<^verbatim>\<open>fmt.Errorf\<close> format of the source,
  carrying what the format prints. An error of the operating system is \<open>EOF\<close>
  (\<^verbatim>\<open>io.EOF\<close>) or any other one, named by a number.
\<close>

datatype io_error = EOF | Errno nat

datatype error =
    is_IndexOutOfRange: IndexOutOfRange int
  | is_BufferTooSmall: BufferTooSmall nat
  | is_ReadFailed: ReadFailed int io_error
  | is_PartialRead: PartialRead int
  | is_SizeMismatch: SizeMismatch nat
  | is_WriteFailed: WriteFailed int io_error
  | is_PartialWrite: PartialWrite int
  | is_BoundsExceeded: BoundsExceeded int

section \<open>Positional accessors\<close>

text \<open>
  \<^verbatim>\<open>r.file.ReadAt(b, off)\<close> is a call into the operating system. It is the parameter
  \<open>readAt\<close>: given \<open>len(b)\<close>, the offset and the state of the file, it answers the bytes it
  transferred into the front of \<open>b\<close> (their number is Go's \<open>n\<close>), the error, and the new
  state of the file. The state is threaded so that a call is visible in it.
\<close>

type_synonym 'f read_at = "nat \<Rightarrow> int \<Rightarrow> 'f \<Rightarrow> (byte list \<times> io_error option) \<times> 'f"

text \<open>The contents of a slice \<open>b\<close> after \<open>got\<close> was transferred into its front.\<close>

definition fill :: "byte list \<Rightarrow> byte list \<Rightarrow> byte list" where
  "fill b got = take (length b) got @ drop (length got) b"

definition ReaderAtReader_ReadRecord ::
  "'f read_at \<Rightarrow> int \<Rightarrow> byte list \<Rightarrow> 'f \<Rightarrow> (error + byte list) \<times> 'f" where
  "ReaderAtReader_ReadRecord readAt index buf f =
     (if index < 0 \<or> index \<ge> int RecordCount then (Inl (IndexOutOfRange index), f)
      else if length buf < RecordSize then (Inl (BufferTooSmall (length buf)), f)
      else
        let offset = index * int RecordSize;
            ((got, err), f') = readAt (length (take RecordSize buf)) offset f;
            n = int (length got)
        in if err \<noteq> None \<and> err \<noteq> Some EOF then (Inl (ReadFailed offset (the err)), f')
           else if n \<noteq> int RecordSize then (Inl (PartialRead n), f')
           else (Inr (fill (take RecordSize buf) got), f'))"

text \<open>
  The caller's buffer as Go holds it: a slice has a length and a capacity, and
  \<^verbatim>\<open>make([]byte, 50, 200)\<close> has 50 elements and room for 200. \<^verbatim>\<open>ReadRecord\<close> tests
  \<^verbatim>\<open>len(buf)\<close> and reslices to \<^verbatim>\<open>buf[:RecordSize]\<close> within that length; it never
  consults \<^verbatim>\<open>cap(buf)\<close>. So a call on a slice is the call on its elements.
\<close>

record slice =
  elems :: "byte list"
  cap :: nat

definition make_slice :: "nat \<Rightarrow> nat \<Rightarrow> slice" where
  "make_slice len c = \<lparr>elems = replicate len 0, cap = c\<rparr>"

definition ReaderAtReader_ReadRecord_slice ::
  "'f read_at \<Rightarrow> int \<Rightarrow> slice \<Rightarrow> 'f \<Rightarrow> (error + byte list) \<times> 'f" where
  "ReaderAtReader_ReadRecord_slice readAt index buf f =
     ReaderAtReader_ReadRecord readAt index (elems buf) f"

text \<open>
  \<^verbatim>\<open>w.file.WriteAt(data, off)\<close> likewise: the parameter \<open>writeAt\<close> answers the count
  \<open>n\<close>, the error and the new state of the file.
\<close>

type_synonym 'f write_at = "byte list \<Rightarrow> int \<Rightarrow> 'f \<Rightarrow> (int \<times> io_error option) \<times> 'f"

definition WriterAtWriter_WriteRecord ::
  "'f write_at \<Rightarrow> int \<Rightarrow> byte list \<Rightarrow> 'f \<Rightarrow> error option \<times> 'f" where
  "WriterAtWriter_WriteRecord writeAt index data f =
     (if index < 0 \<or> index \<ge> int RecordCount then (Some (IndexOutOfRange index), f)
      else if length data \<noteq> RecordSize then (Some (SizeMismatch (length data)), f)
      else
        let offset = index * int RecordSize;
            ((n, err), f') = writeAt data offset f
        in if err \<noteq> None then (Some (WriteFailed offset (the err)), f')
           else if n \<noteq> int RecordSize then (Some (PartialWrite n), f')
           else (None, f'))"

subsection \<open>A regular file\<close>

text \<open>
  What package \<^verbatim>\<open>os\<close> documents for \<^verbatim>\<open>(*File).ReadAt\<close> and \<^verbatim>\<open>(*File).WriteAt\<close> on a
  regular file whose device does not fail; the state of the file is its content.
  \<open>ReadAt\<close> transfers the bytes that exist from the offset on, at most \<open>len(b)\<close>, and
  answers \<open>io.EOF\<close> when they are fewer. \<open>WriteAt\<close> stores the whole payload, growing the
  file with zero bytes where the offset lies past its end.
\<close>

definition File_ReadAt :: "(byte list) read_at" where
  "File_ReadAt len off content =
     (if off < 0 then (([], Some (Errno 22)), content)
      else
        let got = take len (drop (nat off) content)
        in ((got, if length got < len then Some EOF else None), content))"

definition File_WriteAt :: "(byte list) write_at" where
  "File_WriteAt data off content =
     (if off < 0 then ((0, Some (Errno 22)), content)
      else
        let padded = content @ replicate (nat off - length content) 0
        in ((int (length data), None),
            take (nat off) padded @ data @ drop (nat off + length data) padded))"

section \<open>Mapped accessors\<close>

text \<open>
  \<^verbatim>\<open>MmapReader\<close> and \<^verbatim>\<open>MmapWriter\<close> hold a file handle and the mapping; the field
  \<^verbatim>\<open>file\<close> is \<open>fileptr\<close> here. A nil pointer and a nil slice are \<open>None\<close>; \<open>Some d\<close> is
  a mapping whose bytes are \<open>d\<close> at present. The mapping of a file holds the bytes of the
  file: \<^verbatim>\<open>NewMmapReader\<close> and \<^verbatim>\<open>NewMmapWriter\<close> map \<^verbatim>\<open>stat.Size()\<close> bytes from offset 0.
\<close>

record MmapReader =
  fileptr :: "nat option"
  data :: "byte list option"

type_synonym MmapWriter = MmapReader

definition slice_len :: "byte list option \<Rightarrow> nat" where
  "slice_len s = (case s of None \<Rightarrow> 0 | Some d \<Rightarrow> length d)"

text \<open>
  A slice expression \<^verbatim>\<open>m.data[lo:hi]\<close> makes no copy: its value is a window on the
  mapping, kept here as the two bounds. \<open>view_bytes\<close> reads the mapping through it.
\<close>

datatype view = View (lo: nat) (hi: nat)

definition view_bytes :: "byte list \<Rightarrow> view \<Rightarrow> byte list" where
  "view_bytes d v = take (hi v - lo v) (drop (lo v) d)"

definition MmapReader_ReadRecord :: "MmapReader \<Rightarrow> int \<Rightarrow> byte list option \<Rightarrow> error + view" where
  "MmapReader_ReadRecord m index buf =
     (if index < 0 \<or> index \<ge> int RecordCount then Inl (IndexOutOfRange index)
      else
        let offset = index * int RecordSize
        in if offset + int RecordSize > int (slice_len (data m)) then Inl (BoundsExceeded index)
           else Inr (View (nat offset) (nat (offset + int RecordSize))))"

text \<open>
  Go's \<^verbatim>\<open>copy(dst, src)\<close> moves \<open>min(len(dst), len(src))\<close> bytes; \<open>store\<close> is that copy
  into the window \<open>[lo, hi)\<close> of the mapping.
\<close>

definition copy_bytes :: "byte list \<Rightarrow> byte list \<Rightarrow> byte list" where
  "copy_bytes dst src = (let n = min (length dst) (length src) in take n src @ drop n dst)"

definition store :: "byte list \<Rightarrow> view \<Rightarrow> byte list \<Rightarrow> byte list" where
  "store d v src = take (lo v) d @ copy_bytes (view_bytes d v) src @ drop (hi v) d"

definition MmapWriter_WriteRecord :: "MmapWriter \<Rightarrow> int \<Rightarrow> byte list \<Rightarrow> error option \<times> MmapWriter" where
  "MmapWriter_WriteRecord w index payload =
     (if index < 0 \<or> index \<ge> int RecordCount then (Some (IndexOutOfRange index), w)
      else if length payload \<noteq> RecordSize then (Some (SizeMismatch (length payload)), w)
      else
        let offset = index * int RecordSize
        in if offset + int RecordSize > int (slice_len (data w)) then (Some (BoundsExceeded index), w)
           else (None,
                 w\<lparr>data := map_option
                     (\<lambda>d. store d (View (nat offset) (nat (offset + int RecordSize))) payload)
                     (data w)\<rparr>))"

subsection \<open>Teardown and page residency\<close>

text \<open>
  The system calls an accessor issues, in the order it issues them. What the operating
  system answers to a call is a parameter of the operation that makes it.
\<close>

datatype syscall = Munmap | FileClose | Madvise_DONTNEED

definition MmapReader_Close ::
  "io_error option \<Rightarrow> io_error option \<Rightarrow> MmapReader \<Rightarrow> io_error option \<times> syscall list" where
  "MmapReader_Close munmap_result close_result m =
     (let (err1, t1) = (if data m \<noteq> None then (munmap_result, [Munmap]) else (None, []));
          (err2, t2) = (if fileptr m \<noteq> None then (close_result, [FileClose]) else (None, []))
      in (if err1 \<noteq> None then err1 else err2, t1 @ t2))"

definition MmapWriter_Close ::
  "io_error option \<Rightarrow> io_error option \<Rightarrow> MmapWriter \<Rightarrow> io_error option \<times> syscall list" where
  "MmapWriter_Close munmap_result close_result w =
     (let (err1, t1) = (if data w \<noteq> None then (munmap_result, [Munmap]) else (None, []));
          (err2, t2) = (if fileptr w \<noteq> None then (close_result, [FileClose]) else (None, []))
      in (if err1 \<noteq> None then err1 else err2, t1 @ t2))"







text \<open>An operation fails with an error of a given kind.\<close>

definition fails_with :: "(error \<Rightarrow> bool) \<Rightarrow> error + 'a \<Rightarrow> bool" where
  "fails_with kind r = (case r of Inl e \<Rightarrow> kind e | Inr _ \<Rightarrow> False)"

section \<open>Arithmetic of offsets\<close>

lemma offset_nat: "0 \<le> index \<Longrightarrow> index * int RecordSize = int (nat index * RecordSize)"
  by simp

lemma offset_no_overflow:
  assumes "0 \<le> index" "index < int RecordCount"
  shows "0 \<le> index * int RecordSize" "index * int RecordSize + int RecordSize < 2 ^ 31"
  using assms by (simp_all add: RecordSize_def RecordCount_def)

lemma index_fits:
  assumes "0 \<le> index" "index < int RecordCount" "length content = RecordSize * RecordCount"
  shows "nat index * RecordSize + RecordSize \<le> length content"
proof -
  have "nat index + 1 \<le> RecordCount" using assms by linarith
  then have "(nat index + 1) * RecordSize \<le> RecordCount * RecordSize"
    by (rule mult_le_mono1)
  then show ?thesis using assms(3) by (simp add: algebra_simps)
qed

lemma File_ReadAt_inside:
  assumes "off + len \<le> length content"
  shows "File_ReadAt len (int off) content = ((take len (drop off content), None), content)"
  using assms by (simp add: File_ReadAt_def Let_def)

lemma ReaderAt_regular_file:
  assumes "0 \<le> index" "index < int RecordCount" "RecordSize \<le> length buf"
    and "nat index * RecordSize + RecordSize \<le> length content"
  shows "ReaderAtReader_ReadRecord File_ReadAt index buf content =
           (Inr (take RecordSize (drop (nat index * RecordSize) content)), content)"
proof -
  have len: "length (take RecordSize buf) = RecordSize"
    using assms(3) by simp
  have rd: "File_ReadAt RecordSize (index * int RecordSize) content =
      ((take RecordSize (drop (nat index * RecordSize) content), None), content)"
    unfolding offset_nat [OF assms(1)] using assms(4) by (rule File_ReadAt_inside)
  have n: "length (take RecordSize (drop (nat index * RecordSize) content)) = RecordSize"
    using assms(4) by simp
  show ?thesis
    using assms(1-3) n
    by (simp add: ReaderAtReader_ReadRecord_def Let_def rd fill_def)
qed

lemma MmapReader_fits:
  assumes "0 \<le> index" "index < int RecordCount"
    and "nat index * RecordSize + RecordSize \<le> slice_len (data m)"
  shows "MmapReader_ReadRecord m index buf =
           Inr (View (nat index * RecordSize) (nat index * RecordSize + RecordSize))"
proof -
  obtain k where k: "index = int k" "nat index = k"
    using assms(1) by (metis nat_0_le)
  have "\<not> int k * int RecordSize + int RecordSize > int (slice_len (data m))"
    using assms(3) k(2) by (metis linorder_not_less of_nat_add of_nat_le_iff of_nat_mult)
  moreover have "nat (int k * int RecordSize) = k * RecordSize"
    by (simp add: nat_mult_distrib)
  moreover have "nat (int k * int RecordSize + int RecordSize) = k * RecordSize + RecordSize"
    by (simp add: nat_add_distrib nat_mult_distrib)
  ultimately show ?thesis using assms(2) k
    by (simp add: MmapReader_ReadRecord_def Let_def)
qed

lemma WriterAt_regular_file:
  assumes "0 \<le> index" "index < int RecordCount" "length payload = RecordSize"
  shows "\<exists>c'. WriterAtWriter_WriteRecord File_WriteAt index payload content = (None, c')"
proof -
  have "\<not> index * int RecordSize < 0" using assms(1) by (simp add: not_less)
  then show ?thesis using assms
    by (simp add: WriterAtWriter_WriteRecord_def File_WriteAt_def Let_def)
qed

lemma MmapWriter_fits:
  assumes "0 \<le> index" "index < int RecordCount" "length payload = RecordSize"
    and "nat index * RecordSize + RecordSize \<le> slice_len (data w)"
  shows "MmapWriter_WriteRecord w index payload =
     (None, w\<lparr>data := map_option
        (\<lambda>d. store d (View (nat index * RecordSize) (nat index * RecordSize + RecordSize)) payload)
        (data w)\<rparr>)"
proof -
  obtain k where k: "index = int k" "nat index = k"
    using assms(1) by (metis nat_0_le)
  have "\<not> int k * int RecordSize + int RecordSize > int (slice_len (data w))"
    using assms(4) k(2) by (metis linorder_not_less of_nat_add of_nat_le_iff of_nat_mult)
  moreover have "nat (int k * int RecordSize) = k * RecordSize"
    by (simp add: nat_mult_distrib)
  moreover have "nat (int k * int RecordSize + int RecordSize) = k * RecordSize + RecordSize"
    by (simp add: nat_add_distrib nat_mult_distrib)
  ultimately show ?thesis using assms(2,3) k
    by (simp add: MmapWriter_WriteRecord_def Let_def)
qed

section \<open>Windows on the mapping\<close>

lemma MmapReader_exceeds:
  assumes "0 \<le> index" "index < int RecordCount"
    and "slice_len (data m) < nat index * RecordSize + RecordSize"
  shows "MmapReader_ReadRecord m index buf = Inl (BoundsExceeded index)"
proof -
  obtain k where k: "index = int k" "nat index = k"
    using assms(1) by (metis nat_0_le)
  have "int k * int RecordSize + int RecordSize > int (slice_len (data m))"
    using assms(3) k(2) by (metis of_nat_add of_nat_less_iff of_nat_mult)
  then show ?thesis using assms(2) k
    by (simp add: MmapReader_ReadRecord_def Let_def)
qed

lemma view_bytes_window:
  assumes "a + n \<le> length d"
  shows "length (view_bytes d (View a (a + n))) = n"
    and "i < n \<Longrightarrow> view_bytes d (View a (a + n)) ! i = d ! (a + i)"
  using assms by (simp_all add: view_bytes_def)

lemma MmapWriter_exceeds:
  assumes "0 \<le> index" "index < int RecordCount" "length payload = RecordSize"
    and "slice_len (data w) < nat index * RecordSize + RecordSize"
  shows "MmapWriter_WriteRecord w index payload = (Some (BoundsExceeded index), w)"
proof -
  obtain k where k: "index = int k" "nat index = k"
    using assms(1) by (metis nat_0_le)
  have "int k * int RecordSize + int RecordSize > int (slice_len (data w))"
    using assms(4) k(2) by (metis of_nat_add of_nat_less_iff of_nat_mult)
  then show ?thesis using assms(2,3) k
    by (simp add: MmapWriter_WriteRecord_def Let_def)
qed

lemma window_int:
  assumes "0 \<le> index"
  shows "(int j < index * int RecordSize \<or> index * int RecordSize + int RecordSize \<le> int j)
           \<longleftrightarrow> (j < nat index * RecordSize \<or> nat index * RecordSize + RecordSize \<le> j)"
proof -
  obtain k where k: "index = int k" "nat index = k"
    using assms(1) by (metis nat_0_le)
  have "(int j < int k * int RecordSize) = (j < k * RecordSize)"
    by (metis of_nat_less_iff of_nat_mult)
  moreover have "(int k * int RecordSize + int RecordSize \<le> int j) = (k * RecordSize + RecordSize \<le> j)"
    by (metis of_nat_add of_nat_le_iff of_nat_mult)
  ultimately show ?thesis using k by simp
qed

lemma store_exact:
  assumes "a + length src \<le> length d"
  shows "store d (View a (a + length src)) src = take a d @ src @ drop (a + length src) d"
  using assms by (simp add: store_def copy_bytes_def view_bytes_def)

lemma store_length:
  assumes "a + length src \<le> length d"
  shows "length (store d (View a (a + length src)) src) = length d"
  using assms by (simp add: store_exact)

lemma store_window:
  assumes "a + length src \<le> length d"
  shows "view_bytes (store d (View a (a + length src)) src) (View a (a + length src)) = src"
  using assms by (simp add: store_exact view_bytes_def)

lemma store_outside:
  assumes "a + length src \<le> length d" "j < length d" "j < a \<or> a + length src \<le> j"
  shows "store d (View a (a + length src)) src ! j = d ! j"
proof (cases "j < a")
  case True
  then show ?thesis using assms(1) by (simp add: store_exact nth_append)
next
  case False
  then have far: "a + length src \<le> j" using assms(3) by simp
  have la: "length (take a d) = a" using assms(1) by simp
  have "(take a d @ src @ drop (a + length src) d) ! j = (src @ drop (a + length src) d) ! (j - a)"
    using far la by (simp add: nth_append)
  also have "\<dots> = drop (a + length src) d ! (j - a - length src)"
  proof -
    have "\<not> j - a < length src" using far by linarith
    then show ?thesis by (simp only: nth_append if_False)
  qed
  also have "\<dots> = d ! (a + length src + (j - a - length src))"
    using assms(1) by (intro nth_drop)
  also have "a + length src + (j - a - length src) = j"
    using far by simp
  finally show ?thesis using assms(1) by (simp add: store_exact)
qed

section \<open>The warming loop\<close>


section \<open>The two readers agree\<close>

text \<open>
  C1. On a file of \<open>RecordSize * RecordCount\<close> bytes, for every index in
  \<open>[0, RecordCount)\<close>: \<^verbatim>\<open>ReaderAtReader.ReadRecord(index, buf)\<close> with a buffer of at
  least \<open>RecordSize\<close> bytes and \<^verbatim>\<open>MmapReader.ReadRecord(index, nil)\<close> on a mapping of the
  same content both succeed, and the bytes the first returns are the bytes seen through
  the view the second returns, \<open>RecordSize\<close> of them.
\<close>

theorem read_equivalence:
  assumes "0 \<le> index" "index < int RecordCount" "RecordSize \<le> length buf"
    and "length content = RecordSize * RecordCount"
  shows "\<exists>r v. ReaderAtReader_ReadRecord File_ReadAt index buf content = (Inr r, content)
           \<and> MmapReader_ReadRecord \<lparr>fileptr = fp, data = Some content\<rparr> index None = Inr v
           \<and> view_bytes content v = r \<and> length r = RecordSize"
proof -
  have fits: "nat index * RecordSize + RecordSize \<le> length content"
    using assms by (intro index_fits)
  have "ReaderAtReader_ReadRecord File_ReadAt index buf content =
           (Inr (take RecordSize (drop (nat index * RecordSize) content)), content)"
    using assms fits by (intro ReaderAt_regular_file)
  moreover have "MmapReader_ReadRecord \<lparr>fileptr = fp, data = Some content\<rparr> index None =
           Inr (View (nat index * RecordSize) (nat index * RecordSize + RecordSize))"
    using assms fits by (intro MmapReader_fits) (simp_all add: slice_len_def)
  moreover have "view_bytes content (View (nat index * RecordSize) (nat index * RecordSize + RecordSize))
      = take RecordSize (drop (nat index * RecordSize) content)"
    by (simp add: view_bytes_def)
  moreover have "length (take RecordSize (drop (nat index * RecordSize) content)) = RecordSize"
    using fits by simp
  ultimately show ?thesis by simp
qed

theorem read_equivalence_witness:
  "\<exists>r v. ReaderAtReader_ReadRecord File_ReadAt 999999 (replicate 100 0) (replicate 100000000 7)
            = (Inr r, replicate 100000000 7)
      \<and> MmapReader_ReadRecord \<lparr>fileptr = Some 3, data = Some (replicate 100000000 7)\<rparr> 999999 None = Inr v
      \<and> view_bytes (replicate 100000000 7) v = r \<and> length r = 100"
  using read_equivalence [of 999999 "replicate 100 0" "replicate 100000000 7" "Some 3"]
  by (simp add: RecordSize_def RecordCount_def)

section \<open>Validation of the arguments\<close>

text \<open>
  C2. An index outside \<open>[0, RecordCount)\<close>, such as \<open>-1\<close> and \<open>RecordCount\<close>, makes
  \<^verbatim>\<open>ReadRecord\<close> and \<^verbatim>\<open>WriteRecord\<close> of both families return the out-of-range error
  carrying that very index, whatever the file would answer and with the state of the file
  and the mapping as they were: no call was made and no offset was used. The indices
  \<open>0\<close>, \<open>1\<close> and \<open>RecordCount - 1\<close> succeed on a file of \<open>RecordSize * RecordCount\<close> bytes.
\<close>

theorem index_range_checked:
  "(i < 0 \<or> int RecordCount \<le> i \<longrightarrow>
      ReaderAtReader_ReadRecord readAt i buf f = (Inl (IndexOutOfRange i), f)
    \<and> WriterAtWriter_WriteRecord writeAt i payload g = (Some (IndexOutOfRange i), g)
    \<and> MmapReader_ReadRecord m i nbuf = Inl (IndexOutOfRange i)
    \<and> MmapWriter_WriteRecord w i payload = (Some (IndexOutOfRange i), w))
   \<and> (j \<in> {0, 1, int RecordCount - 1} \<and> length content = RecordSize * RecordCount
        \<and> RecordSize \<le> length buf \<and> length payload = RecordSize \<longrightarrow>
      (\<exists>r. ReaderAtReader_ReadRecord File_ReadAt j buf content = (Inr r, content))
    \<and> (\<exists>c'. WriterAtWriter_WriteRecord File_WriteAt j payload content = (None, c'))
    \<and> (\<exists>v. MmapReader_ReadRecord \<lparr>fileptr = fp, data = Some content\<rparr> j nbuf = Inr v)
    \<and> (\<exists>w'. MmapWriter_WriteRecord \<lparr>fileptr = fp, data = Some content\<rparr> j payload = (None, w')))"
proof (intro conjI impI)
  assume out: "i < 0 \<or> int RecordCount \<le> i"
  show "ReaderAtReader_ReadRecord readAt i buf f = (Inl (IndexOutOfRange i), f)"
    using out by (auto simp: ReaderAtReader_ReadRecord_def)
  show "WriterAtWriter_WriteRecord writeAt i payload g = (Some (IndexOutOfRange i), g)"
    using out by (auto simp: WriterAtWriter_WriteRecord_def)
  show "MmapReader_ReadRecord m i nbuf = Inl (IndexOutOfRange i)"
    using out by (auto simp: MmapReader_ReadRecord_def)
  show "MmapWriter_WriteRecord w i payload = (Some (IndexOutOfRange i), w)"
    using out by (auto simp: MmapWriter_WriteRecord_def)
next
  assume ok: "j \<in> {0, 1, int RecordCount - 1} \<and> length content = RecordSize * RecordCount
        \<and> RecordSize \<le> length buf \<and> length payload = RecordSize"
  then have rng: "0 \<le> j" "j < int RecordCount"
    by (auto simp: RecordCount_def)
  have fits: "nat j * RecordSize + RecordSize \<le> length content"
    using rng ok by (intro index_fits) simp_all
  show "\<exists>r. ReaderAtReader_ReadRecord File_ReadAt j buf content = (Inr r, content)"
    using ReaderAt_regular_file [OF rng _ fits, of buf] ok by simp
  show "\<exists>c'. WriterAtWriter_WriteRecord File_WriteAt j payload content = (None, c')"
    using rng ok by (intro WriterAt_regular_file) simp_all
  show "\<exists>v. MmapReader_ReadRecord \<lparr>fileptr = fp, data = Some content\<rparr> j nbuf = Inr v"
    using MmapReader_fits [OF rng, of "\<lparr>fileptr = fp, data = Some content\<rparr>" nbuf] fits
    by (simp add: slice_len_def)
  show "\<exists>w'. MmapWriter_WriteRecord \<lparr>fileptr = fp, data = Some content\<rparr> j payload = (None, w')"
    using MmapWriter_fits [OF rng, of payload "\<lparr>fileptr = fp, data = Some content\<rparr>"] fits ok
    by (simp add: slice_len_def)
qed


theorem index_range_checked_witness:
  "ReaderAtReader_ReadRecord File_ReadAt (- 1) (replicate 100 0) (replicate 100000000 7)
      = (Inl (IndexOutOfRange (- 1)), replicate 100000000 7)
   \<and> WriterAtWriter_WriteRecord File_WriteAt (- 1) (replicate 100 1) (replicate 100000000 7)
      = (Some (IndexOutOfRange (- 1)), replicate 100000000 7)
   \<and> MmapReader_ReadRecord \<lparr>fileptr = Some 3, data = Some (replicate 100000000 7)\<rparr> (- 1) None
      = Inl (IndexOutOfRange (- 1))
   \<and> MmapWriter_WriteRecord \<lparr>fileptr = Some 3, data = Some (replicate 100000000 7)\<rparr> 1000000 (replicate 100 1)
      = (Some (IndexOutOfRange 1000000), \<lparr>fileptr = Some 3, data = Some (replicate 100000000 7)\<rparr>)
   \<and> (\<exists>r. ReaderAtReader_ReadRecord File_ReadAt 999999 (replicate 100 0) (replicate 100000000 7)
      = (Inr r, replicate 100000000 7))
   \<and> (\<exists>c'. WriterAtWriter_WriteRecord File_WriteAt 999999 (replicate 100 1) (replicate 100000000 7)
      = (None, c'))
   \<and> (\<exists>v. MmapReader_ReadRecord \<lparr>fileptr = Some 3, data = Some (replicate 100000000 7)\<rparr> 999999 None
      = Inr v)
   \<and> (\<exists>w'. MmapWriter_WriteRecord \<lparr>fileptr = Some 3, data = Some (replicate 100000000 7)\<rparr> 999999 (replicate 100 1)
      = (None, w'))"
  using index_range_checked [where i = "- 1" and j = 999999 and readAt = File_ReadAt
      and writeAt = File_WriteAt and buf = "replicate 100 0" and payload = "replicate 100 1"
      and f = "replicate 100000000 7" and g = "replicate 100000000 7"
      and content = "replicate 100000000 7" and fp = "Some 3" and nbuf = None
      and m = "\<lparr>fileptr = Some 3, data = Some (replicate 100000000 7)\<rparr>"
      and w = "\<lparr>fileptr = Some 3, data = Some (replicate 100000000 7)\<rparr>"]
    index_range_checked [where i = 1000000 and j = 0 and readAt = File_ReadAt
      and writeAt = File_WriteAt and buf = "replicate 100 0" and payload = "replicate 100 1"
      and f = "replicate 100000000 7" and g = "replicate 100000000 7"
      and content = "replicate 100000000 7" and fp = "Some 3" and nbuf = None
      and m = "\<lparr>fileptr = Some 3, data = Some (replicate 100000000 7)\<rparr>"
      and w = "\<lparr>fileptr = Some 3, data = Some (replicate 100000000 7)\<rparr>"]
  by (simp add: RecordSize_def RecordCount_def)

text \<open>
  C3, as amended. For an index in range, \<^verbatim>\<open>ReaderAtReader.ReadRecord\<close> fails with the
  buffer-too-small error exactly when the length of the buffer, \<^verbatim>\<open>len(buf)\<close>, is less
  than \<open>RecordSize\<close>, whatever its capacity, and then without a call to the file; a buffer
  of length \<open>RecordSize\<close> or more is accepted and the read of \<open>RecordSize\<close> bytes at
  \<open>index * RecordSize\<close> is made.
\<close>

theorem buffer_too_small_iff_length:
  assumes "0 \<le> index" "index < int RecordCount"
  shows "(fails_with is_BufferTooSmall (fst (ReaderAtReader_ReadRecord_slice readAt index buf f))
            \<longleftrightarrow> length (elems buf) < RecordSize)
       \<and> (length (elems buf) < RecordSize \<longrightarrow>
            ReaderAtReader_ReadRecord_slice readAt index buf f
              = (Inl (BufferTooSmall (length (elems buf))), f))
       \<and> (RecordSize \<le> length (elems buf) \<longrightarrow>
            snd (ReaderAtReader_ReadRecord_slice readAt index buf f)
              = snd (readAt RecordSize (index * int RecordSize) f))"
  using assms
  by (auto simp: ReaderAtReader_ReadRecord_slice_def ReaderAtReader_ReadRecord_def
      fails_with_def Let_def split: prod.splits)

theorem buffer_too_small_iff_length_witness:
  "ReaderAtReader_ReadRecord_slice File_ReadAt 1 (make_slice 99 99) (replicate 300 7)
        = (Inl (BufferTooSmall 99), replicate 300 7)
   \<and> ReaderAtReader_ReadRecord_slice File_ReadAt 1 (make_slice 50 200) (replicate 300 7)
        = (Inl (BufferTooSmall 50), replicate 300 7)
   \<and> \<not> fails_with is_BufferTooSmall
         (fst (ReaderAtReader_ReadRecord_slice File_ReadAt 1 (make_slice 150 150) (replicate 300 7)))
   \<and> snd (ReaderAtReader_ReadRecord_slice File_ReadAt 1 (make_slice 150 150) (replicate 300 7))
        = snd (File_ReadAt 100 100 (replicate 300 7))"
  using buffer_too_small_iff_length [of 1 File_ReadAt "make_slice 99 99" "replicate 300 7"]
    buffer_too_small_iff_length [of 1 File_ReadAt "make_slice 50 200" "replicate 300 7"]
    buffer_too_small_iff_length [of 1 File_ReadAt "make_slice 150 150" "replicate 300 7"]
  by (simp add: RecordSize_def RecordCount_def make_slice_def)

text \<open>
  C3 as worded, with the capacity of the buffer where the source has its length, fails:
  \<^verbatim>\<open>make([]byte, 50, 200)\<close> has capacity 200, which is not less than \<open>RecordSize\<close>, and
  index 1 is in range, yet the call fails with the buffer-too-small error.
\<close>

theorem buffer_capacity_counterexample:
  "\<not> cap (make_slice 50 200) < RecordSize
   \<and> fails_with is_BufferTooSmall
        (fst (ReaderAtReader_ReadRecord_slice File_ReadAt 1 (make_slice 50 200) (replicate 300 7)))"
  by (simp add: ReaderAtReader_ReadRecord_slice_def ReaderAtReader_ReadRecord_def
      make_slice_def fails_with_def RecordSize_def RecordCount_def)

text \<open>
  C4. For an index in range, a payload whose length is not \<open>RecordSize\<close> (\<open>RecordSize - 1\<close>
  or \<open>RecordSize + 1\<close>, say) makes both \<^verbatim>\<open>WriterAtWriter.WriteRecord\<close> and
  \<^verbatim>\<open>MmapWriter.WriteRecord\<close> return the size-mismatch error; for any index such a payload
  leaves the file and the mapping as they were, so only payloads of exactly \<open>RecordSize\<close>
  bytes are written.
\<close>

theorem size_mismatch_rejected:
  assumes "length payload \<noteq> RecordSize"
  shows "(0 \<le> index \<and> index < int RecordCount \<longrightarrow>
            WriterAtWriter_WriteRecord writeAt index payload f
               = (Some (SizeMismatch (length payload)), f)
          \<and> MmapWriter_WriteRecord w index payload
               = (Some (SizeMismatch (length payload)), w))
       \<and> snd (WriterAtWriter_WriteRecord writeAt index payload f) = f
       \<and> snd (MmapWriter_WriteRecord w index payload) = w"
  using assms
  by (auto simp: WriterAtWriter_WriteRecord_def MmapWriter_WriteRecord_def)

theorem size_mismatch_rejected_witness:
  "WriterAtWriter_WriteRecord File_WriteAt 2 (replicate 99 1) (replicate 300 7)
      = (Some (SizeMismatch 99), replicate 300 7)
   \<and> MmapWriter_WriteRecord \<lparr>fileptr = Some 3, data = Some (replicate 300 7)\<rparr> 2 (replicate 99 1)
      = (Some (SizeMismatch 99), \<lparr>fileptr = Some 3, data = Some (replicate 300 7)\<rparr>)
   \<and> WriterAtWriter_WriteRecord File_WriteAt 2 (replicate 101 1) (replicate 300 7)
      = (Some (SizeMismatch 101), replicate 300 7)
   \<and> MmapWriter_WriteRecord \<lparr>fileptr = Some 3, data = Some (replicate 300 7)\<rparr> 2 (replicate 101 1)
      = (Some (SizeMismatch 101), \<lparr>fileptr = Some 3, data = Some (replicate 300 7)\<rparr>)"
  using size_mismatch_rejected [of "replicate 99 1" 2 File_WriteAt "replicate 300 7"
      "\<lparr>fileptr = Some 3, data = Some (replicate 300 7)\<rparr>"]
    size_mismatch_rejected [of "replicate 101 1" 2 File_WriteAt "replicate 300 7"
      "\<lparr>fileptr = Some 3, data = Some (replicate 300 7)\<rparr>"]
  by (simp add: RecordSize_def RecordCount_def)

text \<open>
  C5. For an index in range and a buffer of at least \<open>RecordSize\<close> bytes, let the
  positional read answer the bytes \<open>got\<close> and the error \<open>err\<close>. With end-of-stream and
  \<open>RecordSize\<close> bytes, \<^verbatim>\<open>ReaderAtReader.ReadRecord\<close> succeeds (as it does with no error);
  with any other count, with or without end-of-stream, it returns the partial-read
  error; any other error of the read is returned, wrapped with the offset.
\<close>

theorem read_outcome:
  assumes "0 \<le> index" "index < int RecordCount" "RecordSize \<le> length buf"
    and "readAt RecordSize (index * int RecordSize) f = ((got, err), f')"
  shows "(err = Some EOF \<and> length got = RecordSize \<longrightarrow>
            ReaderAtReader_ReadRecord readAt index buf f = (Inr got, f'))
       \<and> (err = None \<and> length got = RecordSize \<longrightarrow>
            ReaderAtReader_ReadRecord readAt index buf f = (Inr got, f'))
       \<and> ((err = None \<or> err = Some EOF) \<and> length got \<noteq> RecordSize \<longrightarrow>
            ReaderAtReader_ReadRecord readAt index buf f
              = (Inl (PartialRead (int (length got))), f'))
       \<and> (err = Some (Errno e) \<longrightarrow>
            ReaderAtReader_ReadRecord readAt index buf f
              = (Inl (ReadFailed (index * int RecordSize) (Errno e)), f'))"
  using assms
  by (auto simp: ReaderAtReader_ReadRecord_def Let_def fill_def)


theorem read_outcome_witness:
  "ReaderAtReader_ReadRecord (\<lambda>len off f. ((replicate 100 7, Some EOF), Suc f)) 5 (replicate 100 0) 0
      = (Inr (replicate 100 7), 1)
   \<and> ReaderAtReader_ReadRecord (\<lambda>len off f. ((replicate 100 7, None), Suc f)) 5 (replicate 100 0) 0
      = (Inr (replicate 100 7), 1)
   \<and> ReaderAtReader_ReadRecord (\<lambda>len off f. ((replicate 40 7, Some EOF), Suc f)) 5 (replicate 100 0) 0
      = (Inl (PartialRead 40), 1)
   \<and> ReaderAtReader_ReadRecord (\<lambda>len off f. ((replicate 40 7, None), Suc f)) 5 (replicate 100 0) 0
      = (Inl (PartialRead 40), 1)
   \<and> ReaderAtReader_ReadRecord (\<lambda>len off f. ((replicate 100 7, Some (Errno 5)), Suc f)) 5 (replicate 100 0) 0
      = (Inl (ReadFailed 500 (Errno 5)), 1)"
  using read_outcome [of 5 "replicate 100 0" "\<lambda>len off f. ((replicate 100 7, Some EOF), Suc f)" 0 "replicate 100 7" "Some EOF" 1]
    read_outcome [of 5 "replicate 100 0" "\<lambda>len off f. ((replicate 100 7, None), Suc f)" 0 "replicate 100 7" None 1]
    read_outcome [of 5 "replicate 100 0" "\<lambda>len off f. ((replicate 40 7, Some EOF), Suc f)" 0 "replicate 40 7" "Some EOF" 1]
    read_outcome [of 5 "replicate 100 0" "\<lambda>len off f. ((replicate 40 7, None), Suc f)" 0 "replicate 40 7" None 1]
    read_outcome [of 5 "replicate 100 0" "\<lambda>len off f. ((replicate 100 7, Some (Errno 5)), Suc f)" 0 "replicate 100 7" "Some (Errno 5)" 1 5]
  by (simp add: RecordSize_def RecordCount_def)

section \<open>Mapped reads and writes\<close>

text \<open>
  C6. For an index in range whose record lies within the mapping,
  \<^verbatim>\<open>MmapReader.ReadRecord\<close> returns the window
  \<open>[index * RecordSize, index * RecordSize + RecordSize)\<close> of the mapping: bounds, no bytes
  of its own, so that what is read through it is what the mapping holds in that range.
  The result is the same for every buffer argument. When the record reaches past the
  end of the mapping the bounds error is returned.
\<close>

theorem mapped_read_is_view:
  assumes "0 \<le> index" "index < int RecordCount"
  shows "(nat index * RecordSize + RecordSize \<le> slice_len (data m) \<longrightarrow>
            MmapReader_ReadRecord m index buf
              = Inr (View (nat index * RecordSize) (nat index * RecordSize + RecordSize)))
       \<and> (slice_len (data m) < nat index * RecordSize + RecordSize \<longrightarrow>
            MmapReader_ReadRecord m index buf = Inl (BoundsExceeded index))
       \<and> MmapReader_ReadRecord m index buf = MmapReader_ReadRecord m index buf'
       \<and> (\<forall>d. nat index * RecordSize + RecordSize \<le> length d \<longrightarrow>
            view_bytes d (View (nat index * RecordSize) (nat index * RecordSize + RecordSize))
              = take RecordSize (drop (nat index * RecordSize) d)
            \<and> length (view_bytes d (View (nat index * RecordSize) (nat index * RecordSize + RecordSize)))
              = RecordSize
            \<and> (\<forall>i. i < RecordSize \<longrightarrow>
                 view_bytes d (View (nat index * RecordSize) (nat index * RecordSize + RecordSize)) ! i
                   = d ! (nat index * RecordSize + i)))"
proof (intro conjI impI allI)
  assume "nat index * RecordSize + RecordSize \<le> slice_len (data m)"
  then show "MmapReader_ReadRecord m index buf
      = Inr (View (nat index * RecordSize) (nat index * RecordSize + RecordSize))"
    using assms by (intro MmapReader_fits)
next
  assume "slice_len (data m) < nat index * RecordSize + RecordSize"
  then show "MmapReader_ReadRecord m index buf = Inl (BoundsExceeded index)"
    using assms by (intro MmapReader_exceeds)
next
  show "MmapReader_ReadRecord m index buf = MmapReader_ReadRecord m index buf'"
    by (simp add: MmapReader_ReadRecord_def)
next
  fix d :: "byte list" assume "nat index * RecordSize + RecordSize \<le> length d"
  then show "view_bytes d (View (nat index * RecordSize) (nat index * RecordSize + RecordSize))
              = take RecordSize (drop (nat index * RecordSize) d)"
    by (simp add: view_bytes_def)
next
  fix d :: "byte list" assume "nat index * RecordSize + RecordSize \<le> length d"
  then show "length (view_bytes d (View (nat index * RecordSize) (nat index * RecordSize + RecordSize)))
              = RecordSize"
    by (rule view_bytes_window(1))
next
  fix d :: "byte list" and i assume "nat index * RecordSize + RecordSize \<le> length d" "i < RecordSize"
  then show "view_bytes d (View (nat index * RecordSize) (nat index * RecordSize + RecordSize)) ! i
                   = d ! (nat index * RecordSize + i)"
    by (rule view_bytes_window(2))
qed

theorem mapped_read_is_view_witness:
  "MmapReader_ReadRecord \<lparr>fileptr = Some 3, data = Some (replicate 250 1 @ replicate 50 2)\<rparr> 2 None
      = Inr (View 200 300)
   \<and> MmapReader_ReadRecord \<lparr>fileptr = Some 3, data = Some (replicate 250 1 @ replicate 50 2)\<rparr> 2
          (Some (replicate 100 9))
      = Inr (View 200 300)
   \<and> view_bytes (replicate 250 1 @ replicate 50 2) (View 200 300) = replicate 50 1 @ replicate 50 2
   \<and> MmapReader_ReadRecord \<lparr>fileptr = Some 3, data = Some (replicate 250 1 @ replicate 50 2)\<rparr> 3 None
      = Inl (BoundsExceeded 3)"
  using mapped_read_is_view [of 2 "\<lparr>fileptr = Some 3, data = Some (replicate 250 1 @ replicate 50 2)\<rparr>"
      "Some (replicate 100 9)" None]
    mapped_read_is_view [of 3 "\<lparr>fileptr = Some 3, data = Some (replicate 250 1 @ replicate 50 2)\<rparr>"
      None None]
  by (auto simp: RecordSize_def RecordCount_def slice_len_def)

text \<open>
  C7. For an index in range, a payload of exactly \<open>RecordSize\<close> bytes and a record that lies
  within the mapping, \<^verbatim>\<open>MmapWriter.WriteRecord\<close> succeeds, and afterwards the bytes of the
  mapping in \<open>[index * RecordSize, index * RecordSize + RecordSize)\<close> are the payload.
\<close>

theorem mapped_write_stores_payload:
  assumes "0 \<le> index" "index < int RecordCount" "length payload = RecordSize"
    and "data w = Some d" "nat index * RecordSize + RecordSize \<le> length d"
  shows "\<exists>d'. MmapWriter_WriteRecord w index payload = (None, w\<lparr>data := Some d'\<rparr>)
           \<and> length d' = length d
           \<and> view_bytes d' (View (nat index * RecordSize) (nat index * RecordSize + RecordSize))
               = payload"
proof -
  let ?a = "nat index * RecordSize"
  let ?d' = "store d (View ?a (?a + RecordSize)) payload"
  have fits: "?a + length payload \<le> length d" using assms(3,5) by simp
  have "MmapWriter_WriteRecord w index payload = (None, w\<lparr>data := Some ?d'\<rparr>)"
    using MmapWriter_fits [OF assms(1-3), of w] assms(4,5) by (simp add: slice_len_def)
  moreover have "length ?d' = length d"
    using store_length [OF fits] assms(3) by simp
  moreover have "view_bytes ?d' (View ?a (?a + RecordSize)) = payload"
    using store_window [OF fits] assms(3) by simp
  ultimately show ?thesis by blast
qed

theorem mapped_write_stores_payload_witness:
  "\<exists>d'. MmapWriter_WriteRecord \<lparr>fileptr = Some 3, data = Some (replicate 300 0)\<rparr> 1 (replicate 100 9)
            = (None, \<lparr>fileptr = Some 3, data = Some d'\<rparr>)
      \<and> length d' = 300 \<and> view_bytes d' (View 100 200) = replicate 100 9"
  using mapped_write_stores_payload [of 1 "replicate 100 9"
      "\<lparr>fileptr = Some 3, data = Some (replicate 300 0)\<rparr>" "replicate 300 0"]
  by (simp add: RecordSize_def RecordCount_def)

section \<open>Teardown\<close>

text \<open>
  C8. \<^verbatim>\<open>Close\<close> of a mapped reader or writer (mapping and file handle both present)
  unmaps the region and then closes the file handle, in that order and whatever the
  unmapping answered; it returns the error of the unmapping when there is one, also when
  both fail, and that of the closing otherwise.
\<close>

theorem close_unmaps_then_closes:
  assumes "data m \<noteq> None" "fileptr m \<noteq> None"
  shows "MmapReader_Close munmap_result close_result m
           = (if munmap_result \<noteq> None then munmap_result else close_result, [Munmap, FileClose])
       \<and> MmapWriter_Close munmap_result close_result m
           = (if munmap_result \<noteq> None then munmap_result else close_result, [Munmap, FileClose])"
  using assms by (simp add: MmapReader_Close_def MmapWriter_Close_def)

theorem close_unmaps_then_closes_witness:
  "MmapReader_Close (Some (Errno 22)) (Some (Errno 9)) \<lparr>fileptr = Some 3, data = Some [1, 2]\<rparr>
      = (Some (Errno 22), [Munmap, FileClose])
   \<and> MmapWriter_Close (Some (Errno 22)) (Some (Errno 9)) \<lparr>fileptr = Some 3, data = Some [1, 2]\<rparr>
      = (Some (Errno 22), [Munmap, FileClose])
   \<and> MmapReader_Close None (Some (Errno 9)) \<lparr>fileptr = Some 3, data = Some [1, 2]\<rparr>
      = (Some (Errno 9), [Munmap, FileClose])
   \<and> MmapWriter_Close None None \<lparr>fileptr = Some 3, data = Some [1, 2]\<rparr>
      = (None, [Munmap, FileClose])"
  using close_unmaps_then_closes [of "\<lparr>fileptr = Some 3, data = Some [1, 2]\<rparr>" "Some (Errno 22)" "Some (Errno 9)"]
    close_unmaps_then_closes [of "\<lparr>fileptr = Some 3, data = Some [1, 2]\<rparr>" None "Some (Errno 9)"]
    close_unmaps_then_closes [of "\<lparr>fileptr = Some 3, data = Some [1, 2]\<rparr>" None None]
  by simp

section \<open>Page residency\<close>



section \<open>What a mapped write leaves alone\<close>

text \<open>
  C10. Whatever \<^verbatim>\<open>MmapWriter.WriteRecord\<close> is called with: the mapping keeps its length and
  every byte outside \<open>[index * RecordSize, index * RecordSize + RecordSize)\<close> keeps its value;
  and when the call returns an error, which it does exactly when the index is out of
  range, the payload has not \<open>RecordSize\<close> bytes or the record reaches past the mapping,
  the writer is unchanged altogether.
\<close>

theorem mapped_write_frame:
  assumes "MmapWriter_WriteRecord w index payload = (e, w')"
  shows "fileptr w' = fileptr w
       \<and> slice_len (data w') = slice_len (data w)
       \<and> (data w = None \<longrightarrow> data w' = None)
       \<and> (\<forall>d. data w = Some d \<longrightarrow>
            (\<exists>d'. data w' = Some d' \<and> length d' = length d
               \<and> (\<forall>j. j < length d
                     \<and> (int j < index * int RecordSize
                          \<or> index * int RecordSize + int RecordSize \<le> int j)
                     \<longrightarrow> d' ! j = d ! j)))
       \<and> (e \<noteq> None \<longrightarrow> w' = w)
       \<and> (e = None \<longleftrightarrow>
             0 \<le> index \<and> index < int RecordCount \<and> length payload = RecordSize
             \<and> index * int RecordSize + int RecordSize \<le> int (slice_len (data w)))"
proof (cases "e = None")
  case False
  then have same: "w' = w"
    using assms by (auto simp: MmapWriter_WriteRecord_def Let_def split: if_splits)
  have "\<not> (0 \<le> index \<and> index < int RecordCount \<and> length payload = RecordSize
             \<and> index * int RecordSize + int RecordSize \<le> int (slice_len (data w)))"
    using assms False by (auto simp: MmapWriter_WriteRecord_def Let_def split: if_splits)
  then show ?thesis using False same by auto
next
  case True
  then have ok: "0 \<le> index" "index < int RecordCount" "length payload = RecordSize"
      "index * int RecordSize + int RecordSize \<le> int (slice_len (data w))"
    using assms by (auto simp: MmapWriter_WriteRecord_def Let_def split: if_splits)
  let ?a = "nat index * RecordSize"
  have "int (?a + RecordSize) \<le> int (slice_len (data w))"
    using ok(1,4) by simp
  then have fits: "?a + RecordSize \<le> slice_len (data w)" by linarith
  have w': "w' = w\<lparr>data := map_option (\<lambda>d. store d (View ?a (?a + RecordSize)) payload) (data w)\<rparr>"
    using MmapWriter_fits [OF ok(1-3) fits] assms by simp
  have frame: "\<exists>d'. data w' = Some d' \<and> length d' = length d
               \<and> (\<forall>j. j < length d
                     \<and> (int j < index * int RecordSize
                          \<or> index * int RecordSize + int RecordSize \<le> int j)
                     \<longrightarrow> d' ! j = d ! j)" if d: "data w = Some d" for d
  proof -
    have fd: "?a + length payload \<le> length d"
      using fits d ok(3) by (simp add: slice_len_def)
    have "data w' = Some (store d (View ?a (?a + length payload)) payload)"
      using w' d ok(3) by simp
    moreover have "length (store d (View ?a (?a + length payload)) payload) = length d"
      using fd by (rule store_length)
    moreover have "store d (View ?a (?a + length payload)) payload ! j = d ! j"
      if "j < length d" "int j < index * int RecordSize
                          \<or> index * int RecordSize + int RecordSize \<le> int j" for j
      using store_outside [OF fd that(1)] that(2) window_int [OF ok(1), of j] ok(3) by simp
    ultimately show ?thesis by blast
  qed
  have "slice_len (data w') = slice_len (data w)"
  proof (cases "data w")
    case None
    then show ?thesis using w' by simp
  next
    case (Some d)
    then show ?thesis using frame [OF Some] by (auto simp: slice_len_def)
  qed
  moreover have "fileptr w' = fileptr w" using w' by simp
  moreover have "data w = None \<longrightarrow> data w' = None" using w' by simp
  ultimately show ?thesis using True ok frame by blast
qed

theorem mapped_write_frame_witness:
  "\<exists>d'. MmapWriter_WriteRecord \<lparr>fileptr = Some 3, data = Some (replicate 300 0)\<rparr> 1 (replicate 100 9)
            = (None, \<lparr>fileptr = Some 3, data = Some d'\<rparr>)
      \<and> length d' = 300 \<and> d' ! 99 = 0 \<and> d' ! 200 = 0"
proof -
  obtain e w' where r: "MmapWriter_WriteRecord \<lparr>fileptr = Some 3, data = Some (replicate 300 0)\<rparr> 1
      (replicate 100 9) = (e, w')"
    by (cases "MmapWriter_WriteRecord \<lparr>fileptr = Some 3, data = Some (replicate 300 0)\<rparr> 1 (replicate 100 9)")
  note fr = mapped_write_frame [OF r]
  have e: "e = None" using fr by (simp add: RecordSize_def RecordCount_def slice_len_def)
  obtain d' where d': "data w' = Some d'" "length d' = 300"
    "\<forall>j. j < 300 \<and> (int j < 100 \<or> 200 \<le> int j) \<longrightarrow> d' ! j = (replicate 300 (0::byte)) ! j"
    using fr by (auto simp: RecordSize_def)
  have "fileptr w' = Some 3" using fr by simp
  then have "w' = \<lparr>fileptr = Some 3, data = Some d'\<rparr>" using d'(1) by (cases w') simp
  moreover have "d' ! 99 = 0" "d' ! 200 = 0" using d'(3) by simp_all
  ultimately show ?thesis using r e d'(2) by blast
qed

end
